theory Spec2Isabelle
  imports Main
begin

section \<open>Data model\<close>

text \<open>
  The package keeps a list of allow/deny rules over IP networks and a default stance.
  The types and functions it takes from the Go standard library and from the multiaddr
  packages (\<^verbatim>\<open>net.IPNet\<close>, \<^verbatim>\<open>ma.Split\<close>, \<^verbatim>\<open>manet.ToNetAddr\<close>,
  \<^verbatim>\<open>net.ParseIP\<close>) are not part of the package. They are parameters of the model:
  a record of functions over the type variables \<open>'net\<close> (a \<^verbatim>\<open>*net.IPNet\<close>),
  \<open>'ip\<close> (a non-nil \<^verbatim>\<open>net.IP\<close>), \<open>'ma\<close> (a \<^verbatim>\<open>ma.Multiaddr\<close>) and
  \<open>'na\<close> (a \<^verbatim>\<open>net.Addr\<close>). A failing call returns \<open>None\<close>:
  \<^verbatim>\<open>err != nil\<close> for \<^verbatim>\<open>ToNetAddr\<close>, a nil IP for \<^verbatim>\<open>ParseIP\<close>.
\<close>

record ('net, 'ip, 'ma, 'na) netlib =
  IPNet_String :: "'net \<Rightarrow> string"
  IPNet_Contains :: "'net \<Rightarrow> 'ip \<Rightarrow> bool"
  ma_Split :: "'ma \<Rightarrow> 'ma list"
  manet_ToNetAddr :: "'ma \<Rightarrow> 'na option"
  Addr_String :: "'na \<Rightarrow> string"
  net_ParseIP :: "string \<Rightarrow> 'ip option"

text \<open>
  \<^verbatim>\<open>type filterEntry struct { f *net.IPNet; reject bool }\<close>. The entry holds the network
  its pointer refers to; the pointer is taken to be non-nil.
\<close>

record 'net filterEntry =
  f :: 'net
  reject :: bool

text \<open>
  \<^verbatim>\<open>sync.RWMutex\<close>. Every operation of the package takes the lock on entry and releases
  it with a deferred unlock, so a run of one operation leaves the lock as it found it;
  the operations below carry the field along unchanged.
\<close>

datatype RWMutex = Unlocked | RLocked nat | Locked

text \<open>
  \<^verbatim>\<open>type Filters struct { RejectByDefault bool; mu sync.RWMutex; filters []*filterEntry }\<close>
\<close>

record 'net Filters =
  RejectByDefault :: bool
  mu :: RWMutex
  filters :: "'net filterEntry list"

text \<open>A run-time panic of the Go program, as a value.\<close>

datatype panic = IndexOutOfRange | SliceBoundsOutOfRange

section \<open>Operations\<close>

definition NewFilters :: "'net Filters" where
  "NewFilters = \<lparr>RejectByDefault = False, mu = Unlocked, filters = []\<rparr>"

text \<open>
  \<^verbatim>\<open>find\<close> (here \<open>find_idx\<close>, the list library has a \<open>find\<close> of its own): the
  index of the first entry whose network prints as the argument does, or \<open>-1\<close>. Go's
  \<^verbatim>\<open>int\<close> is modelled by \<open>int\<close>: the index never exceeds the length of a slice.
  The loop \<^verbatim>\<open>for idx, ft := range fs.filters\<close> is \<open>find_loop\<close>, which
  carries the running index.
\<close>

fun find_loop :: "('net \<Rightarrow> string) \<Rightarrow> string \<Rightarrow> int \<Rightarrow> 'net filterEntry list \<Rightarrow> int" where
  "find_loop str ffs idx [] = -1"
| "find_loop str ffs idx (ft # fts) =
     (if str (f ft) = ffs then idx else find_loop str ffs (idx + 1) fts)"

definition find_idx :: "('net, 'ip, 'ma, 'na) netlib \<Rightarrow> ('net, 'z) Filters_scheme \<Rightarrow> 'net \<Rightarrow> int" where
  "find_idx lib fs ff =
     (let ffs = IPNet_String lib ff in find_loop (IPNet_String lib) ffs 0 (filters fs))"

text \<open>
  \<^verbatim>\<open>fs.filters[idx].reject = v\<close>: an index outside the slice panics.
\<close>

definition set_reject ::
  "'net filterEntry list \<Rightarrow> int \<Rightarrow> bool \<Rightarrow> panic + 'net filterEntry list" where
  "set_reject xs idx v =
     (if 0 \<le> idx \<and> idx < int (length xs)
      then Inr (xs[nat idx := (xs ! nat idx)\<lparr>reject := v\<rparr>])
      else Inl IndexOutOfRange)"

text \<open>
  \<^verbatim>\<open>append(fs.filters[:idx], fs.filters[idx+1:]...)\<close>: the slice expressions panic
  unless \<open>0 \<le> idx\<close> and \<open>idx + 1 \<le> len\<close>.
\<close>

definition delete_at :: "'a list \<Rightarrow> int \<Rightarrow> panic + 'a list" where
  "delete_at xs idx =
     (if 0 \<le> idx \<and> idx + 1 \<le> int (length xs)
      then Inr (take (nat idx) xs @ drop (nat (idx + 1)) xs)
      else Inl SliceBoundsOutOfRange)"

definition AddDialFilter ::
  "('net, 'ip, 'ma, 'na) netlib \<Rightarrow> ('net, 'z) Filters_scheme \<Rightarrow> 'net \<Rightarrow>
   panic + ('net, 'z) Filters_scheme" where
  "AddDialFilter lib fs p =
     (let idx = find_idx lib fs p in
      if idx \<noteq> -1 then
        (case set_reject (filters fs) idx True of
           Inl e \<Rightarrow> Inl e
         | Inr xs \<Rightarrow> Inr (fs\<lparr>filters := xs\<rparr>))
      else Inr (fs\<lparr>filters := filters fs @ [\<lparr>f = p, reject = True\<rparr>]\<rparr>))"

definition AddDenyFilter ::
  "('net, 'ip, 'ma, 'na) netlib \<Rightarrow> ('net, 'z) Filters_scheme \<Rightarrow> 'net \<Rightarrow>
   panic + ('net, 'z) Filters_scheme" where
  "AddDenyFilter lib fs p = AddDialFilter lib fs p"

definition AddAllowFilter ::
  "('net, 'ip, 'ma, 'na) netlib \<Rightarrow> ('net, 'z) Filters_scheme \<Rightarrow> 'net \<Rightarrow>
   panic + ('net, 'z) Filters_scheme" where
  "AddAllowFilter lib fs p =
     (let idx = find_idx lib fs p in
      if idx \<noteq> -1 then
        (case set_reject (filters fs) idx False of
           Inl e \<Rightarrow> Inl e
         | Inr xs \<Rightarrow> Inr (fs\<lparr>filters := xs\<rparr>))
      else Inr (fs\<lparr>filters := filters fs @ [\<lparr>f = p, reject = False\<rparr>]\<rparr>))"

definition Remove ::
  "('net, 'ip, 'ma, 'na) netlib \<Rightarrow> ('net, 'z) Filters_scheme \<Rightarrow> 'net \<Rightarrow>
   panic + ('net, 'z) Filters_scheme" where
  "Remove lib fs ff =
     (let idx = find_idx lib fs ff in
      if idx \<noteq> -1 then
        (case delete_at (filters fs) idx of
           Inl e \<Rightarrow> Inl e
         | Inr xs \<Rightarrow> Inr (fs\<lparr>filters := xs\<rparr>))
      else Inr fs)"

text \<open>
  \<^verbatim>\<open>AddrBlocked\<close>. The three early returns come first; the loop over the rules is
  \<open>AddrBlocked_loop\<close>, whose third argument is the local variable \<^verbatim>\<open>reject\<close>.
\<close>

fun AddrBlocked_loop ::
  "('net \<Rightarrow> 'ip \<Rightarrow> bool) \<Rightarrow> 'ip \<Rightarrow> bool \<Rightarrow> 'net filterEntry list \<Rightarrow> bool" where
  "AddrBlocked_loop contains netip rej [] = rej"
| "AddrBlocked_loop contains netip rej (ft # fts) =
     AddrBlocked_loop contains netip (if contains (f ft) netip then reject ft else rej) fts"

definition AddrBlocked ::
  "('net, 'ip, 'ma, 'na) netlib \<Rightarrow> ('net, 'z) Filters_scheme \<Rightarrow> 'ma \<Rightarrow> bool" where
  "AddrBlocked lib fs a =
     (case ma_Split lib a of
        [] \<Rightarrow> RejectByDefault fs
      | m0 # _ \<Rightarrow>
          (case manet_ToNetAddr lib m0 of
             None \<Rightarrow> RejectByDefault fs
           | Some netaddr \<Rightarrow>
               (case net_ParseIP lib (Addr_String lib netaddr) of
                  None \<Rightarrow> RejectByDefault fs
                | Some netip \<Rightarrow>
                    AddrBlocked_loop (IPNet_Contains lib) netip
                      (RejectByDefault fs) (filters fs))))"

text \<open>
  \<^verbatim>\<open>Filters\<close> (alias \<^verbatim>\<open>RejectFilters\<close>) and \<^verbatim>\<open>AllowFilters\<close>: each starts from a nil
  slice \<^verbatim>\<open>out\<close> and appends the networks of the entries it selects.
\<close>

fun Filters_loop :: "'net list \<Rightarrow> 'net filterEntry list \<Rightarrow> 'net list" where
  "Filters_loop out [] = out"
| "Filters_loop out (ff # ffs) = Filters_loop (if reject ff then out @ [f ff] else out) ffs"

definition Filters :: "('net, 'z) Filters_scheme \<Rightarrow> 'net list" where
  "Filters fs = Filters_loop [] (filters fs)"

definition RejectFilters :: "('net, 'z) Filters_scheme \<Rightarrow> 'net list" where
  "RejectFilters fs = Filters fs"

fun AllowFilters_loop :: "'net list \<Rightarrow> 'net filterEntry list \<Rightarrow> 'net list" where
  "AllowFilters_loop out [] = out"
| "AllowFilters_loop out (ff # ffs) =
     AllowFilters_loop (if \<not> reject ff then out @ [f ff] else out) ffs"

definition AllowFilters :: "('net, 'z) Filters_scheme \<Rightarrow> 'net list" where
  "AllowFilters fs = AllowFilters_loop [] (filters fs)"

section \<open>The specification's reading of the operations\<close>

text \<open>
  Evaluation as the specification words it: among the rules whose prefix contains the
  address, the last one in insertion order decides; with no such rule the default does.
\<close>

definition last_match ::
  "('net \<Rightarrow> 'ip \<Rightarrow> bool) \<Rightarrow> 'ip \<Rightarrow> bool \<Rightarrow> 'net filterEntry list \<Rightarrow> bool" where
  "last_match contains netip dflt rules =
     (case filter (\<lambda>r. contains (f r) netip) rules of
        [] \<Rightarrow> dflt
      | m # ms \<Rightarrow> reject (last (m # ms)))"

text \<open>
  Removal as the specification words it: every rule whose prefix has the canonical
  string of the argument goes, whatever its action.
\<close>

definition remove_every ::
  "('net \<Rightarrow> string) \<Rightarrow> 'net \<Rightarrow> 'net filterEntry list \<Rightarrow> 'net filterEntry list" where
  "remove_every str p rules = filter (\<lambda>r. str (f r) \<noteq> str p) rules"

section \<open>An IPv4 instance of the library interface\<close>

text \<open>
  A small stand-in for the library, enough to run the model on the addresses and
  networks of the package's tests: a network is four octets and the number of leading
  one bits of its mask (\<^verbatim>\<open>1.2.3.0/24\<close>), an IP is four octets, a multiaddr is a list of
  components, and the textual forms are the dotted decimal ones. The theorems below hold
  for every library; the instance serves the closed examples only.
\<close>

record IPNet =
  IP :: "nat list"
  ones :: nat

datatype component = IP4 "nat list" | TCP nat | UDP nat | Unix string

datatype netaddr = IPAddr "nat list" | UnixAddr string

function uitoa :: "nat \<Rightarrow> string" where
  "uitoa n =
     (if n < 10 then [''0123456789'' ! n]
      else uitoa (n div 10) @ [''0123456789'' ! (n mod 10)])"
  by pat_completeness auto
termination
  by (relation "measure id") auto

fun join_dots :: "string list \<Rightarrow> string" where
  "join_dots [] = []"
| "join_dots [s] = s"
| "join_dots (s # ss) = s @ CHR ''.'' # join_dots ss"

fun dtoi :: "nat \<Rightarrow> string \<Rightarrow> nat option" where
  "dtoi acc [] = Some acc"
| "dtoi acc (c # cs) =
     (let d = (of_char c :: nat) in
      if 48 \<le> d \<and> d \<le> 57 then dtoi (10 * acc + (d - 48)) cs else None)"

fun fields :: "string \<Rightarrow> string \<Rightarrow> string list" where
  "fields cur [] = [cur]"
| "fields cur (c # cs) =
     (if c = CHR ''.'' then cur # fields [] cs else fields (cur @ [c]) cs)"

definition octet :: "string \<Rightarrow> nat option" where
  "octet s =
     (if s = [] then None
      else case dtoi 0 s of None \<Rightarrow> None | Some n \<Rightarrow> if n \<le> 255 then Some n else None)"

definition ip4_ParseIP :: "string \<Rightarrow> nat list option" where
  "ip4_ParseIP s =
     (case map octet (fields [] s) of
        [Some a, Some b, Some c, Some d] \<Rightarrow> Some [a, b, c, d]
      | _ \<Rightarrow> None)"

definition ip4_num :: "nat list \<Rightarrow> nat" where
  "ip4_num bs = foldl (\<lambda>a b. 256 * a + b) 0 bs"

definition ip4_Contains :: "IPNet \<Rightarrow> nat list \<Rightarrow> bool" where
  "ip4_Contains n ip =
     (length ip = 4 \<and> length (IP n) = 4 \<and> ones n \<le> 32 \<and>
      ip4_num ip div 2 ^ (32 - ones n) = ip4_num (IP n) div 2 ^ (32 - ones n))"

definition ip4_String :: "IPNet \<Rightarrow> string" where
  "ip4_String n = join_dots (map uitoa (IP n)) @ CHR ''/'' # uitoa (ones n)"

definition ip4_ToNetAddr :: "component list \<Rightarrow> netaddr option" where
  "ip4_ToNetAddr m =
     (case m of
        [IP4 bs] \<Rightarrow> Some (IPAddr bs)
      | [Unix p] \<Rightarrow> Some (UnixAddr p)
      | _ \<Rightarrow> None)"

definition ip4_Addr_String :: "netaddr \<Rightarrow> string" where
  "ip4_Addr_String na =
     (case na of IPAddr bs \<Rightarrow> join_dots (map uitoa bs) | UnixAddr p \<Rightarrow> p)"

definition ip4lib :: "(IPNet, nat list, component list, netaddr) netlib" where
  "ip4lib =
     \<lparr>IPNet_String = ip4_String, IPNet_Contains = ip4_Contains,
      ma_Split = map (\<lambda>c. [c]), manet_ToNetAddr = ip4_ToNetAddr,
      Addr_String = ip4_Addr_String, net_ParseIP = ip4_ParseIP\<rparr>"

text \<open>The networks \<^verbatim>\<open>1.2.3.0/24\<close>, \<^verbatim>\<open>1.2.3.128/25\<close> and \<^verbatim>\<open>4.3.2.1/32\<close>.\<close>

definition net24 :: IPNet where
  "net24 = \<lparr>IP = [1, 2, 3, 0], ones = 24\<rparr>"

definition net25 :: IPNet where
  "net25 = \<lparr>IP = [1, 2, 3, 128], ones = 25\<rparr>"

definition net32 :: IPNet where
  "net32 = \<lparr>IP = [4, 3, 2, 1], ones = 32\<rparr>"

text \<open>
  Tables for the examples. \<open>table1\<close> denies by default, denies the narrow network
  first and allows the wide one after it; \<open>table2\<close> denies by default and allows
  \<^verbatim>\<open>1.2.3.0/24\<close>.
\<close>

definition table1 :: "IPNet Filters" where
  "table1 = \<lparr>RejectByDefault = True, mu = Unlocked,
     filters = [\<lparr>f = net25, reject = True\<rparr>, \<lparr>f = net24, reject = False\<rparr>]\<rparr>"


text \<open>
  \<open>table3\<close> allows by default and holds two rules for \<^verbatim>\<open>1.2.3.0/24\<close>, an allow and
  after it a deny. \<open>table4\<close> holds two allow rules for that network.
\<close>

definition table3 :: "IPNet Filters" where
  "table3 = \<lparr>RejectByDefault = False, mu = Unlocked,
     filters = [\<lparr>f = net24, reject = False\<rparr>, \<lparr>f = net24, reject = True\<rparr>]\<rparr>"


section \<open>Facts about the loops\<close>

lemmas ip4_defs = ip4lib_def ip4_String_def ip4_Contains_def ip4_ParseIP_def
  ip4_ToNetAddr_def ip4_Addr_String_def ip4_num_def octet_def net24_def net25_def net32_def

lemma Filters_loop_eq:
  "Filters_loop out xs = out @ map f (filter reject xs)"
  by (induction xs arbitrary: out) simp_all

lemma AllowFilters_loop_eq:
  "AllowFilters_loop out xs = out @ map f (filter (\<lambda>e. \<not> reject e) xs)"
  by (induction xs arbitrary: out) simp_all

lemma find_loop_none:
  "(\<forall>x\<in>set xs. str (f x) \<noteq> s) \<Longrightarrow> find_loop str s k xs = -1"
  by (induction xs arbitrary: k) simp_all

lemma find_loop_first:
  "i < length xs \<Longrightarrow> str (f (xs ! i)) = s \<Longrightarrow> (\<forall>j<i. str (f (xs ! j)) \<noteq> s) \<Longrightarrow>
   find_loop str s k xs = k + int i"
proof (induction xs arbitrary: k i)
  case Nil
  then show ?case by simp
next
  case (Cons x xs)
  show ?case
  proof (cases i)
    case 0
    with Cons.prems show ?thesis by simp
  next
    case (Suc i')
    from Cons.prems Suc have x: "str (f x) \<noteq> s" by auto
    from Cons.prems Suc have "i' < length xs" "str (f (xs ! i')) = s" by auto
    moreover from Cons.prems Suc have "\<forall>j<i'. str (f (xs ! j)) \<noteq> s" by auto
    ultimately have "find_loop str s (k + 1) xs = (k + 1) + int i'"
      by (rule Cons.IH)
    with x Suc show ?thesis by simp
  qed
qed

lemma first_match_ex:
  "\<exists>x\<in>set xs. P x \<Longrightarrow> \<exists>i<length xs. P (xs ! i) \<and> (\<forall>j<i. \<not> P (xs ! j))"
proof (induction xs)
  case Nil
  then show ?case by simp
next
  case (Cons x xs)
  show ?case
  proof (cases "P x")
    case True
    then have "0 < length (x # xs) \<and> P ((x # xs) ! 0) \<and> (\<forall>j<0. \<not> P ((x # xs) ! j))" by simp
    then show ?thesis by blast
  next
    case False
    with Cons.prems have "\<exists>x\<in>set xs. P x" by simp
    from Cons.IH[OF this] obtain i where i: "i < length xs" "P (xs ! i)" "\<forall>j<i. \<not> P (xs ! j)"
      by blast
    have "\<forall>j<Suc i. \<not> P ((x # xs) ! j)"
    proof (intro allI impI)
      fix j assume "j < Suc i"
      then show "\<not> P ((x # xs) ! j)" using False i(3) by (cases j) auto
    qed
    with i have "Suc i < length (x # xs) \<and> P ((x # xs) ! Suc i) \<and> (\<forall>j<Suc i. \<not> P ((x # xs) ! j))"
      by simp
    then show ?thesis by blast
  qed
qed


lemma AddrBlocked_loop_last_match:
  "AddrBlocked_loop c ip r xs = last_match c ip r xs"
proof (induction xs arbitrary: r)
  case Nil
  show ?case by (simp add: last_match_def)
next
  case (Cons x xs)
  show ?case
    by (simp add: Cons.IH last_match_def split: list.splits)
qed


lemma AddrBlocked_loop_foldl:
  "AddrBlocked_loop c ip d xs = foldl (\<lambda>decision r. if c (f r) ip then reject r else decision) d xs"
  by (induction xs arbitrary: d) simp_all

section \<open>Facts about the mutations\<close>

lemma find_idx_none:
  "\<forall>e\<in>set (filters fs). IPNet_String lib (f e) \<noteq> IPNet_String lib p \<Longrightarrow>
   find_idx lib fs p = -1"
  by (simp add: find_idx_def find_loop_none)

lemma find_idx_first:
  assumes "i < length (filters fs)"
    and "IPNet_String lib (f (filters fs ! i)) = IPNet_String lib p"
    and "\<forall>j<i. IPNet_String lib (f (filters fs ! j)) \<noteq> IPNet_String lib p"
  shows "find_idx lib fs p = int i"
  using find_loop_first [OF assms, of 0] by (simp add: find_idx_def)

lemma distinct_match_first:
  assumes "distinct (map g xs)" and "i < length xs" and "g (xs ! i) = s"
  shows "\<forall>j<i. g (xs ! j) \<noteq> s"
proof (intro allI impI)
  fix j assume j: "j < i"
  from assms(1) have
    "\<forall>a<length (map g xs). \<forall>b<length (map g xs). a \<noteq> b \<longrightarrow> map g xs ! a \<noteq> map g xs ! b"
    by (simp only: distinct_conv_nth)
  moreover from j assms(2) have "j < length (map g xs)" "i < length (map g xs)" "j \<noteq> i"
    by simp_all
  ultimately have "map g xs ! j \<noteq> map g xs ! i" by blast
  with j assms(2,3) show "g (xs ! j) \<noteq> s" by simp
qed

lemma map_f_set_reject:
  "map f (xs[i := (xs ! i)\<lparr>reject := v\<rparr>]) = map f xs"
proof (cases "i < length xs")
  case True
  then have "f (xs ! i) = map f xs ! i" by simp
  then have "(map f xs)[i := f (xs ! i)] = map f xs"
    by (simp only: list_update_id)
  then show ?thesis by (simp add: map_update)
next
  case False
  then have "length xs \<le> i" by arith
  then have "xs[i := (xs ! i)\<lparr>reject := v\<rparr>] = xs" by (rule list_update_beyond)
  then show ?thesis by simp
qed

lemma AddDialFilter_present:
  assumes "i < length (filters fs)"
    and "IPNet_String lib (f (filters fs ! i)) = IPNet_String lib p"
    and "\<forall>j<i. IPNet_String lib (f (filters fs ! j)) \<noteq> IPNet_String lib p"
  shows "AddDialFilter lib fs p =
           Inr (fs\<lparr>filters := (filters fs)[i := (filters fs ! i)\<lparr>reject := True\<rparr>]\<rparr>)"
  using assms(1) by (simp add: AddDialFilter_def find_idx_first [OF assms] set_reject_def)

lemma AddAllowFilter_present:
  assumes "i < length (filters fs)"
    and "IPNet_String lib (f (filters fs ! i)) = IPNet_String lib p"
    and "\<forall>j<i. IPNet_String lib (f (filters fs ! j)) \<noteq> IPNet_String lib p"
  shows "AddAllowFilter lib fs p =
           Inr (fs\<lparr>filters := (filters fs)[i := (filters fs ! i)\<lparr>reject := False\<rparr>]\<rparr>)"
  using assms(1) by (simp add: AddAllowFilter_def find_idx_first [OF assms] set_reject_def)

lemma AddDialFilter_absent:
  assumes "\<forall>e\<in>set (filters fs). IPNet_String lib (f e) \<noteq> IPNet_String lib p"
  shows "AddDialFilter lib fs p = Inr (fs\<lparr>filters := filters fs @ [\<lparr>f = p, reject = True\<rparr>]\<rparr>)"
  by (simp add: AddDialFilter_def find_idx_none [OF assms])

lemma AddAllowFilter_absent:
  assumes "\<forall>e\<in>set (filters fs). IPNet_String lib (f e) \<noteq> IPNet_String lib p"
  shows "AddAllowFilter lib fs p = Inr (fs\<lparr>filters := filters fs @ [\<lparr>f = p, reject = False\<rparr>]\<rparr>)"
  by (simp add: AddAllowFilter_def find_idx_none [OF assms])

lemma Remove_present:
  assumes "i < length (filters fs)"
    and "IPNet_String lib (f (filters fs ! i)) = IPNet_String lib p"
    and "\<forall>j<i. IPNet_String lib (f (filters fs ! j)) \<noteq> IPNet_String lib p"
  shows "Remove lib fs p =
           Inr (fs\<lparr>filters := take i (filters fs) @ drop (Suc i) (filters fs)\<rparr>)"
proof -
  have "nat (int i + 1) = Suc i" by simp
  with assms(1) show ?thesis
    by (simp add: Remove_def find_idx_first [OF assms] delete_at_def)
qed

lemma Remove_absent:
  assumes "\<forall>e\<in>set (filters fs). IPNet_String lib (f e) \<noteq> IPNet_String lib p"
  shows "Remove lib fs p = Inr fs"
  by (simp add: Remove_def find_idx_none [OF assms])


lemma Add_present_later:
  assumes "\<exists>e\<in>set (filters fs). IPNet_String lib (f e) = IPNet_String lib p"
  shows "\<exists>fs'. (if v then AddDialFilter lib fs p else AddAllowFilter lib fs p) = Inr fs' \<and>
           length (filters fs') = length (filters fs) \<and>
           map f (filters fs') = map f (filters fs)"
proof -
  from first_match_ex [where P = "\<lambda>e. IPNet_String lib (f e) = IPNet_String lib p", OF assms]
  obtain i where i: "i < length (filters fs)"
      "IPNet_String lib (f (filters fs ! i)) = IPNet_String lib p"
      "\<forall>j<i. IPNet_String lib (f (filters fs ! j)) \<noteq> IPNet_String lib p"
    by blast
  show ?thesis
    by (cases v)
      (simp_all add: AddDialFilter_present [OF i] AddAllowFilter_present [OF i] map_f_set_reject)
qed

lemma Add_makes_present:
  "\<exists>fs'. (if v then AddDialFilter lib fs p else AddAllowFilter lib fs p) = Inr fs' \<and>
         (\<exists>e\<in>set (filters fs'). IPNet_String lib (f e) = IPNet_String lib p) \<and>
         map (\<lambda>e. IPNet_String lib (f e)) (filters fs') =
           (if \<exists>e\<in>set (filters fs). IPNet_String lib (f e) = IPNet_String lib p
            then map (\<lambda>e. IPNet_String lib (f e)) (filters fs)
            else map (\<lambda>e. IPNet_String lib (f e)) (filters fs) @ [IPNet_String lib p])"
proof (cases "\<exists>e\<in>set (filters fs). IPNet_String lib (f e) = IPNet_String lib p")
  case True
  from Add_present_later [OF True, of v] obtain fs' where
    fs': "(if v then AddDialFilter lib fs p else AddAllowFilter lib fs p) = Inr fs'"
      "map f (filters fs') = map f (filters fs)"
    by blast
  from fs'(2) have "map (IPNet_String lib) (map f (filters fs')) =
      map (IPNet_String lib) (map f (filters fs))"
    by simp
  then have m: "map (\<lambda>e. IPNet_String lib (f e)) (filters fs') =
      map (\<lambda>e. IPNet_String lib (f e)) (filters fs)"
    by (simp add: o_def)
  from True have "IPNet_String lib p \<in> set (map (\<lambda>e. IPNet_String lib (f e)) (filters fs))"
    by force
  with m have "IPNet_String lib p \<in> set (map (\<lambda>e. IPNet_String lib (f e)) (filters fs'))"
    by simp
  then have "\<exists>e\<in>set (filters fs'). IPNet_String lib (f e) = IPNet_String lib p"
    by force
  with fs'(1) m True show ?thesis by simp
next
  case False
  then have a: "\<forall>e\<in>set (filters fs). IPNet_String lib (f e) \<noteq> IPNet_String lib p" by simp
  show ?thesis
    using False
    by (cases v) (simp_all add: AddDialFilter_absent [OF a] AddAllowFilter_absent [OF a])
qed


section \<open>Evaluation\<close>

text \<open>
  C1. When the leading component of the address yields an IP, \<open>AddrBlocked\<close> starts from
  \<open>RejectByDefault\<close>, walks the rules from the oldest to the newest, takes the action of
  every rule whose network contains the IP, and never stops early: the answer is that of
  the last rule in insertion order that contains the IP (the default when none does),
  and it is \<open>True\<close> exactly when that action is deny.
\<close>

theorem AddrBlocked_last_match_wins:
  assumes "ma_Split lib a = m0 # ms"
    and "manet_ToNetAddr lib m0 = Some netaddr"
    and "net_ParseIP lib (Addr_String lib netaddr) = Some netip"
  shows "AddrBlocked lib fs a =
           foldl (\<lambda>decision r. if IPNet_Contains lib (f r) netip then reject r else decision)
             (RejectByDefault fs) (filters fs) \<and>
         AddrBlocked lib fs a =
           last_match (IPNet_Contains lib) netip (RejectByDefault fs) (filters fs)"
proof -
  have run: "AddrBlocked lib fs a =
      AddrBlocked_loop (IPNet_Contains lib) netip (RejectByDefault fs) (filters fs)"
    using assms by (simp add: AddrBlocked_def)
  have "AddrBlocked lib fs a =
      foldl (\<lambda>decision r. if IPNet_Contains lib (f r) netip then reject r else decision)
        (RejectByDefault fs) (filters fs)"
    unfolding run by (rule AddrBlocked_loop_foldl)
  moreover have "AddrBlocked lib fs a =
      last_match (IPNet_Contains lib) netip (RejectByDefault fs) (filters fs)"
    unfolding run by (rule AddrBlocked_loop_last_match)
  ultimately show ?thesis by (rule conjI)
qed

text \<open>
  The narrow deny \<^verbatim>\<open>1.2.3.128/25\<close> comes first, the wide allow \<^verbatim>\<open>1.2.3.0/24\<close> last:
  \<^verbatim>\<open>/ip4/1.2.3.200/tcp/123\<close> lies in both and is not blocked.
\<close>

theorem AddrBlocked_last_match_wins_witness:
  "ma_Split ip4lib [IP4 [1, 2, 3, 200], TCP 123] = [IP4 [1, 2, 3, 200]] # [[TCP 123]] \<and>
   manet_ToNetAddr ip4lib [IP4 [1, 2, 3, 200]] = Some (IPAddr [1, 2, 3, 200]) \<and>
   net_ParseIP ip4lib (Addr_String ip4lib (IPAddr [1, 2, 3, 200])) = Some [1, 2, 3, 200] \<and>
   IPNet_Contains ip4lib net25 [1, 2, 3, 200] \<and>
   IPNet_Contains ip4lib net24 [1, 2, 3, 200] \<and>
   AddrBlocked ip4lib table1 [IP4 [1, 2, 3, 200], TCP 123] =
     last_match (IPNet_Contains ip4lib) [1, 2, 3, 200] (RejectByDefault table1) (filters table1) \<and>
   AddrBlocked ip4lib table1 [IP4 [1, 2, 3, 200], TCP 123] = False"
proof -
  have h1: "ma_Split ip4lib [IP4 [1, 2, 3, 200], TCP 123] = [IP4 [1, 2, 3, 200]] # [[TCP 123]]"
    by (simp add: ip4lib_def)
  have h2: "manet_ToNetAddr ip4lib [IP4 [1, 2, 3, 200]] = Some (IPAddr [1, 2, 3, 200])"
    by (simp add: ip4lib_def ip4_ToNetAddr_def)
  have h3: "net_ParseIP ip4lib (Addr_String ip4lib (IPAddr [1, 2, 3, 200])) = Some [1, 2, 3, 200]"
    by (simp add: ip4_defs)
  have c: "IPNet_Contains ip4lib net25 [1, 2, 3, 200]" "IPNet_Contains ip4lib net24 [1, 2, 3, 200]"
    by (simp_all add: ip4_defs)
  note w = AddrBlocked_last_match_wins [OF h1 h2 h3, of table1, THEN conjunct2]
  have v: "last_match (IPNet_Contains ip4lib) [1, 2, 3, 200] (RejectByDefault table1) (filters table1) = False"
    using c by (simp add: last_match_def table1_def)
  have r: "AddrBlocked ip4lib table1 [IP4 [1, 2, 3, 200], TCP 123] = False"
    using w v by simp
  show ?thesis
    by (intro conjI) (rule h1 h2 h3 c w r)+
qed



text \<open>
  C5. \<open>NewFilters\<close> is a table with no rule that allows by default, and it blocks no
  address at all.
\<close>

theorem NewFilters_blocks_nothing:
  "RejectByDefault NewFilters = False \<and> filters NewFilters = [] \<and>
   AddrBlocked lib NewFilters a = False"
  by (simp add: NewFilters_def AddrBlocked_def split: list.splits option.splits)



section \<open>Listing\<close>

text \<open>
  C7. \<open>Filters\<close> (and its alias \<open>RejectFilters\<close>) returns the networks of the deny rules
  and \<open>AllowFilters\<close> those of the allow rules, each in the order of the table. Both
  build their result from an empty list and read the table only, so the result is a
  value of its own and the table is as it was.
\<close>

theorem Filters_lists_by_action:
  "Filters fs = map f (filter reject (filters fs)) \<and>
   RejectFilters fs = map f (filter reject (filters fs)) \<and>
   AllowFilters fs = map f (filter (\<lambda>e. \<not> reject e) (filters fs))"
  by (simp add: Filters_def RejectFilters_def AllowFilters_def Filters_loop_eq AllowFilters_loop_eq)

section \<open>Insertion\<close>

text \<open>
  C4. On a table with at most one rule per canonical string, \<open>AddDialFilter\<close> (alias
  \<open>AddDenyFilter\<close>) and \<open>AddAllowFilter\<close> update in place: when a rule whose network
  prints as \<open>p\<close> does is there, its action is overwritten where it stands, and the
  length of the table and the network at every position stay; otherwise a rule for
  \<open>p\<close> is appended at the end. Neither call panics. After one call the table still has
  one rule per string, and a second call for \<open>p\<close>, of either kind, leaves the length and
  the networks as they are.
\<close>

theorem Add_update_in_place:
  assumes "distinct (map (\<lambda>e. IPNet_String lib (f e)) (filters fs))"
  shows
    "AddDenyFilter lib fs p = AddDialFilter lib fs p \<and>
     (\<forall>i<length (filters fs).
        IPNet_String lib (f (filters fs ! i)) = IPNet_String lib p \<longrightarrow>
        AddDialFilter lib fs p =
          Inr (fs\<lparr>filters := (filters fs)[i := (filters fs ! i)\<lparr>reject := True\<rparr>]\<rparr>) \<and>
        AddAllowFilter lib fs p =
          Inr (fs\<lparr>filters := (filters fs)[i := (filters fs ! i)\<lparr>reject := False\<rparr>]\<rparr>)) \<and>
     ((\<forall>e\<in>set (filters fs). IPNet_String lib (f e) \<noteq> IPNet_String lib p) \<longrightarrow>
        AddDialFilter lib fs p = Inr (fs\<lparr>filters := filters fs @ [\<lparr>f = p, reject = True\<rparr>]\<rparr>) \<and>
        AddAllowFilter lib fs p = Inr (fs\<lparr>filters := filters fs @ [\<lparr>f = p, reject = False\<rparr>]\<rparr>)) \<and>
     (\<forall>v w. \<exists>fs1 fs2.
        (if v then AddDialFilter lib fs p else AddAllowFilter lib fs p) = Inr fs1 \<and>
        distinct (map (\<lambda>e. IPNet_String lib (f e)) (filters fs1)) \<and>
        (if w then AddDialFilter lib fs1 p else AddAllowFilter lib fs1 p) = Inr fs2 \<and>
        length (filters fs2) = length (filters fs1) \<and>
        map f (filters fs2) = map f (filters fs1))"
proof (intro conjI allI impI)
  show "AddDenyFilter lib fs p = AddDialFilter lib fs p"
    by (simp add: AddDenyFilter_def)
next
  fix i
  assume i: "i < length (filters fs)"
    and s: "IPNet_String lib (f (filters fs ! i)) = IPNet_String lib p"
  from distinct_match_first [OF assms i] s
  have first: "\<forall>j<i. IPNet_String lib (f (filters fs ! j)) \<noteq> IPNet_String lib p" by simp
  show "AddDialFilter lib fs p =
          Inr (fs\<lparr>filters := (filters fs)[i := (filters fs ! i)\<lparr>reject := True\<rparr>]\<rparr>)"
    by (rule AddDialFilter_present [OF i s first])
  show "AddAllowFilter lib fs p =
          Inr (fs\<lparr>filters := (filters fs)[i := (filters fs ! i)\<lparr>reject := False\<rparr>]\<rparr>)"
    by (rule AddAllowFilter_present [OF i s first])
next
  assume a: "\<forall>e\<in>set (filters fs). IPNet_String lib (f e) \<noteq> IPNet_String lib p"
  show "AddDialFilter lib fs p = Inr (fs\<lparr>filters := filters fs @ [\<lparr>f = p, reject = True\<rparr>]\<rparr>)"
    by (rule AddDialFilter_absent [OF a])
  show "AddAllowFilter lib fs p = Inr (fs\<lparr>filters := filters fs @ [\<lparr>f = p, reject = False\<rparr>]\<rparr>)"
    by (rule AddAllowFilter_absent [OF a])
next
  fix v w
  from Add_makes_present [of v lib fs p] obtain fs1 where
    fs1: "(if v then AddDialFilter lib fs p else AddAllowFilter lib fs p) = Inr fs1"
      "\<exists>e\<in>set (filters fs1). IPNet_String lib (f e) = IPNet_String lib p"
      "map (\<lambda>e. IPNet_String lib (f e)) (filters fs1) =
           (if \<exists>e\<in>set (filters fs). IPNet_String lib (f e) = IPNet_String lib p
            then map (\<lambda>e. IPNet_String lib (f e)) (filters fs)
            else map (\<lambda>e. IPNet_String lib (f e)) (filters fs) @ [IPNet_String lib p])"
    by blast
  have d: "distinct (map (\<lambda>e. IPNet_String lib (f e)) (filters fs1))"
  proof (cases "\<exists>e\<in>set (filters fs). IPNet_String lib (f e) = IPNet_String lib p")
    case True
    with fs1(3) assms show ?thesis by simp
  next
    case False
    then have "IPNet_String lib p \<notin> set (map (\<lambda>e. IPNet_String lib (f e)) (filters fs))"
      by force
    with False fs1(3) assms show ?thesis by simp
  qed
  from Add_present_later [OF fs1(2), of w] obtain fs2 where
    "(if w then AddDialFilter lib fs1 p else AddAllowFilter lib fs1 p) = Inr fs2"
    "length (filters fs2) = length (filters fs1)"
    "map f (filters fs2) = map f (filters fs1)"
    by blast
  with fs1(1) d show "\<exists>fs1 fs2.
        (if v then AddDialFilter lib fs p else AddAllowFilter lib fs p) = Inr fs1 \<and>
        distinct (map (\<lambda>e. IPNet_String lib (f e)) (filters fs1)) \<and>
        (if w then AddDialFilter lib fs1 p else AddAllowFilter lib fs1 p) = Inr fs2 \<and>
        length (filters fs2) = length (filters fs1) \<and>
        map f (filters fs2) = map f (filters fs1)"
    by blast
qed

text \<open>
  On \<open>table1\<close>, allowing \<^verbatim>\<open>1.2.3.128/25\<close> rewrites the first rule, and denying
  \<^verbatim>\<open>4.3.2.1/32\<close>, which has no rule, appends one.
\<close>

theorem Add_update_in_place_witness:
  "distinct (map (\<lambda>e. IPNet_String ip4lib (f e)) (filters table1)) \<and>
   AddAllowFilter ip4lib table1 net25 =
     Inr (table1\<lparr>filters := [\<lparr>f = net25, reject = False\<rparr>, \<lparr>f = net24, reject = False\<rparr>]\<rparr>) \<and>
   AddDialFilter ip4lib table1 net32 =
     Inr (table1\<lparr>filters := [\<lparr>f = net25, reject = True\<rparr>, \<lparr>f = net24, reject = False\<rparr>,
                                \<lparr>f = net32, reject = True\<rparr>]\<rparr>)"
proof -
  have s: "map (\<lambda>e. IPNet_String ip4lib (f e)) (filters table1) =
           [''1.2.3.128/25'', ''1.2.3.0/24'']"
    by (simp add: table1_def ip4_defs)
  have d: "distinct (map (\<lambda>e. IPNet_String ip4lib (f e)) (filters table1))"
    unfolding s by simp
  have p25: "IPNet_String ip4lib net25 = ''1.2.3.128/25''"
    and p32: "IPNet_String ip4lib net32 = ''4.3.2.1/32''"
    by (simp_all add: ip4_defs)
  have fl: "filters table1 = [\<lparr>f = net25, reject = True\<rparr>, \<lparr>f = net24, reject = False\<rparr>]"
    by (simp add: table1_def)
  have at0: "0 < length (filters table1) \<and>
             IPNet_String ip4lib (f (filters table1 ! 0)) = IPNet_String ip4lib net25"
    by (simp add: fl)
  have "\<forall>x\<in>set (map (\<lambda>e. IPNet_String ip4lib (f e)) (filters table1)).
          x \<noteq> IPNet_String ip4lib net32"
    unfolding s p32 by simp
  then have absent: "\<forall>e\<in>set (filters table1). IPNet_String ip4lib (f e) \<noteq> IPNet_String ip4lib net32"
    by simp
  from Add_update_in_place [OF d, of net25] at0
  have "AddAllowFilter ip4lib table1 net25 =
          Inr (table1\<lparr>filters := (filters table1)[0 := (filters table1 ! 0)\<lparr>reject := False\<rparr>]\<rparr>)"
    by blast
  then have a: "AddAllowFilter ip4lib table1 net25 =
     Inr (table1\<lparr>filters := [\<lparr>f = net25, reject = False\<rparr>, \<lparr>f = net24, reject = False\<rparr>]\<rparr>)"
    by (simp add: fl)
  from Add_update_in_place [OF d, of net32] absent
  have "AddDialFilter ip4lib table1 net32 =
          Inr (table1\<lparr>filters := filters table1 @ [\<lparr>f = net32, reject = True\<rparr>]\<rparr>)"
    by blast
  then have b: "AddDialFilter ip4lib table1 net32 =
     Inr (table1\<lparr>filters := [\<lparr>f = net25, reject = True\<rparr>, \<lparr>f = net24, reject = False\<rparr>,
                                \<lparr>f = net32, reject = True\<rparr>]\<rparr>)"
    by (simp add: fl)
  show ?thesis
    by (intro conjI) (rule d a b)+
qed



section \<open>Removal\<close>

text \<open>
  C6. When no rule of the table prints as \<open>p\<close> does, \<open>Remove\<close> returns the table it was
  given, without a panic: the default and the rules are the same, and so is the answer
  of \<open>AddrBlocked\<close> for every address.
\<close>

theorem Remove_unknown_prefix_noop:
  assumes "\<forall>e\<in>set (filters fs). IPNet_String lib (f e) \<noteq> IPNet_String lib p"
  shows "Remove lib fs p = Inr fs \<and>
         (case Remove lib fs p of
            Inl e \<Rightarrow> False
          | Inr fs' \<Rightarrow>
              RejectByDefault fs' = RejectByDefault fs \<and> filters fs' = filters fs \<and>
              AddrBlocked lib fs' a = AddrBlocked lib fs a)"
  by (simp add: Remove_absent [OF assms])

text \<open>\<open>table1\<close> has no rule for \<^verbatim>\<open>4.3.2.1/32\<close>.\<close>

theorem Remove_unknown_prefix_noop_witness:
  "map (\<lambda>e. IPNet_String ip4lib (f e)) (filters table1) = [''1.2.3.128/25'', ''1.2.3.0/24''] \<and>
   IPNet_String ip4lib net32 = ''4.3.2.1/32'' \<and>
   Remove ip4lib table1 net32 = Inr table1"
proof -
  have s: "map (\<lambda>e. IPNet_String ip4lib (f e)) (filters table1) =
           [''1.2.3.128/25'', ''1.2.3.0/24'']"
    by (simp add: table1_def ip4_defs)
  have p: "IPNet_String ip4lib net32 = ''4.3.2.1/32''"
    by (simp add: ip4_defs)
  have "\<forall>x\<in>set (map (\<lambda>e. IPNet_String ip4lib (f e)) (filters table1)).
          x \<noteq> IPNet_String ip4lib net32"
    unfolding s p by simp
  then have h: "\<forall>e\<in>set (filters table1). IPNet_String ip4lib (f e) \<noteq> IPNet_String ip4lib net32"
    by simp
  from Remove_unknown_prefix_noop [OF h] have r: "Remove ip4lib table1 net32 = Inr table1"
    by (rule conjunct1)
  show ?thesis
    by (intro conjI) (rule s p r)+
qed

text \<open>
  C3. \<open>Remove\<close> deletes the rule at the index \<open>find_idx\<close> returns and no other (lemma
  \<open>Remove_present\<close>). On \<open>table3\<close>, which holds an allow and a deny rule for
  \<^verbatim>\<open>1.2.3.0/24\<close>, removing that network leaves the deny rule in place, where removing
  every rule for it would leave none; \<^verbatim>\<open>/ip4/1.2.3.4/tcp/123\<close> is then blocked although
  the default allows.
\<close>

theorem Remove_leaves_later_duplicate:
  "Remove ip4lib table3 net24 = Inr (table3\<lparr>filters := [\<lparr>f = net24, reject = True\<rparr>]\<rparr>) \<and>
   remove_every (IPNet_String ip4lib) net24 (filters table3) = [] \<and>
   RejectByDefault table3 = False \<and>
   AddrBlocked ip4lib (table3\<lparr>filters := [\<lparr>f = net24, reject = True\<rparr>]\<rparr>)
     [IP4 [1, 2, 3, 4], TCP 123] = True"
  by (simp add: Remove_def find_idx_def delete_at_def remove_every_def AddrBlocked_def
      table3_def ip4_defs)

end
